theory Spec2Isabelle
  imports Main
begin

section \<open>JavaScript values\<close>

text \<open>
  The configuration service declares \<^verbatim>\<open>config: any\<close>, \<^verbatim>\<open>defaultConfig: any\<close> and takes
  an untyped argument in \<^verbatim>\<open>setConfig(config)\<close>, so the configuration is modelled as a
  dynamically typed JavaScript value. An object is a map from its own enumerable property
  names to values; an array is an object whose names are its indices. The payload of a
  number is never inspected by the code modelled here beyond its truthiness.
\<close>

datatype jsval =
    JUndefined
  | JNull
  | JBool bool
  | JNum int
  | JStr string
  | JObj "string \<Rightarrow> jsval option"

datatype js_error = TypeError

text \<open>Truthiness, as tested by \<^verbatim>\<open>if ( v )\<close> and \<^verbatim>\<open>v || w\<close>.\<close>

fun truthy :: "jsval \<Rightarrow> bool" where
  "truthy JUndefined = False"
| "truthy JNull = False"
| "truthy (JBool b) = b"
| "truthy (JNum n) = (n \<noteq> 0)"
| "truthy (JStr s) = (s \<noteq> [])"
| "truthy (JObj m) = True"

text \<open>Decimal index names, as used for the characters of a string.\<close>

fun string_of_nat :: "nat \<Rightarrow> string" where
  "string_of_nat n =
     (if n < 10 then [''0123456789'' ! n]
      else string_of_nat (n div 10) @ [''0123456789'' ! (n mod 10)])"

declare string_of_nat.simps [simp del]

text \<open>
  The own enumerable properties copied by an object spread \<^verbatim>\<open>{...v}\<close>: those of an
  object, the indexed characters of a string, and nothing for \<^verbatim>\<open>undefined\<close>,
  \<^verbatim>\<open>null\<close>, booleans and numbers.
\<close>

fun ownProps :: "jsval \<Rightarrow> (string \<Rightarrow> jsval option)" where
  "ownProps (JObj m) = m"
| "ownProps (JStr s) =
     map_of (zip (map string_of_nat [0..<length s]) (map (\<lambda>c. JStr [c]) s))"
| "ownProps JUndefined = Map.empty"
| "ownProps JNull = Map.empty"
| "ownProps (JBool b) = Map.empty"
| "ownProps (JNum n) = Map.empty"

text \<open>
  Property read \<^verbatim>\<open>v.k\<close>. Reading from \<^verbatim>\<open>undefined\<close> or \<^verbatim>\<open>null\<close> throws a
  TypeError; a missing property reads as \<^verbatim>\<open>undefined\<close>. Inherited properties are not
  modelled: the names read by the code (\<^verbatim>\<open>layout\<close>, \<^verbatim>\<open>colorClasses\<close>,
  \<^verbatim>\<open>navigationFolded\<close>) are on no built-in prototype.
\<close>

fun getProp :: "jsval \<Rightarrow> string \<Rightarrow> js_error + jsval" where
  "getProp JUndefined k = Inl TypeError"
| "getProp JNull k = Inl TypeError"
| "getProp (JStr s) k =
     (if k = ''length'' then Inr (JNum (int (length s)))
      else Inr (case ownProps (JStr s) k of None \<Rightarrow> JUndefined | Some v \<Rightarrow> v))"
| "getProp v k = Inr (case ownProps v k of None \<Rightarrow> JUndefined | Some x \<Rightarrow> x)"

text \<open>
  Property write \<^verbatim>\<open>v.k = x\<close> in strict mode (the file is an ES module): it updates an
  object and throws a TypeError on every primitive.
\<close>

fun setProp :: "jsval \<Rightarrow> string \<Rightarrow> jsval \<Rightarrow> js_error + jsval" where
  "setProp (JObj m) k x = Inr (JObj (m(k \<mapsto> x)))"
| "setProp v k x = Inl TypeError"

text \<open>Sequencing of computations that may throw: the first exception ends the computation.\<close>

definition bindE :: "js_error + 'a \<Rightarrow> ('a \<Rightarrow> js_error + 'b) \<Rightarrow> js_error + 'b" where
  "bindE r f = (case r of Inl e \<Rightarrow> Inl e | Inr x \<Rightarrow> f x)"

section \<open>The configuration service\<close>

definition DEFAULT_CONFIG :: jsval where
  "DEFAULT_CONFIG = JObj
     [''layout'' \<mapsto> JObj
        [''navigation'' \<mapsto> JStr ''left'',
         ''navigationFolded'' \<mapsto> JBool False,
         ''toolbar'' \<mapsto> JStr ''below'',
         ''footer'' \<mapsto> JStr ''below'',
         ''mode'' \<mapsto> JStr ''fullwidth''],
      ''colorClasses'' \<mapsto> JObj
        [''toolbar'' \<mapsto> JStr ''mat-white-500-bg'',
         ''navbar'' \<mapsto> JStr ''mat-fuse-dark-700-bg'',
         ''footer'' \<mapsto> JStr ''mat-fuse-dark-900-bg''],
      ''customScrollbars'' \<mapsto> JBool True,
      ''routerAnimation'' \<mapsto> JStr ''fadeIn'']"

text \<open>
  The fields of \<^verbatim>\<open>FuseConfigService\<close>. \<open>onConfigChanged\<close> is the value currently held
  by the behaviour subject, which is what a new subscriber receives.
\<close>

record FuseConfigService =
  config :: jsval
  defaultConfig :: jsval
  onConfigChanged :: jsval

text \<open>
  The constructor, given the optionally injected custom configuration (\<^verbatim>\<open>null\<close> when
  none is provided) and whether the platform reports Android or iOS. The working
  configuration is a shallow copy of the default; \<open>setConfig\<close> below never writes into an
  existing object, so the sharing of the nested objects is not observable.
\<close>

definition FuseConfigService_constructor :: "jsval \<Rightarrow> bool \<Rightarrow> js_error + FuseConfigService" where
  "FuseConfigService_constructor custom mobile =
     (let d0 = (if truthy custom then custom else DEFAULT_CONFIG) in
      bindE (if mobile then setProp d0 ''customScrollbars'' (JBool False) else Inr d0)
        (\<lambda>d. let c = JObj (ownProps d)
             in Inr \<lparr>config = c, defaultConfig = d, onConfigChanged = c\<rparr>))"

text \<open>
  \<^verbatim>\<open>setConfig(config)\<close>: the object literal spreads the current configuration, then the
  argument, and then sets \<^verbatim>\<open>layout\<close> and \<^verbatim>\<open>colorClasses\<close> to the merge of the
  current and the given subsection. The reads \<^verbatim>\<open>config.layout\<close> and
  \<^verbatim>\<open>config.colorClasses\<close> throw when the argument is \<^verbatim>\<open>undefined\<close> or \<^verbatim>\<open>null\<close>;
  the exception leaves the service unchanged.
\<close>

definition setConfig :: "FuseConfigService \<Rightarrow> jsval \<Rightarrow> js_error + FuseConfigService" where
  "setConfig this cfg =
     bindE (getProp (config this) ''layout'') (\<lambda>thisLayout.
     bindE (getProp cfg ''layout'') (\<lambda>cfgLayout.
     bindE (getProp (config this) ''colorClasses'') (\<lambda>thisColors.
     bindE (getProp cfg ''colorClasses'') (\<lambda>cfgColors.
       let c = JObj ((ownProps (config this) ++ ownProps cfg)
                 (''layout'' \<mapsto> JObj (ownProps thisLayout ++ ownProps cfgLayout),
                  ''colorClasses'' \<mapsto> JObj (ownProps thisColors ++ ownProps cfgColors)))
       in Inr (this\<lparr>config := c, onConfigChanged := c\<rparr>)))))"

text \<open>
  The router subscription of the constructor: on a \<^verbatim>\<open>NavigationStart\<close> event it calls
  \<^verbatim>\<open>setConfig({layout: this.defaultConfig.layout})\<close>.
\<close>

definition onNavigationStart :: "FuseConfigService \<Rightarrow> js_error + FuseConfigService" where
  "onNavigationStart this =
     bindE (getProp (defaultConfig this) ''layout'')
       (\<lambda>l. setConfig this (JObj [''layout'' \<mapsto> l]))"

text \<open>
  A sequence of \<^verbatim>\<open>setConfig\<close> calls on one service. A call that throws has not assigned
  \<^verbatim>\<open>this.config\<close>, so the next call finds the service as it was.
\<close>

definition setConfig_call :: "jsval \<Rightarrow> FuseConfigService \<Rightarrow> FuseConfigService" where
  "setConfig_call cfg this = (case setConfig this cfg of Inl e \<Rightarrow> this | Inr this' \<Rightarrow> this')"

definition setConfig_calls :: "jsval list \<Rightarrow> FuseConfigService \<Rightarrow> FuseConfigService" where
  "setConfig_calls cfgs this = fold setConfig_call cfgs this"

text \<open>The subsection \<open>k\<close> of a configuration value, \<^verbatim>\<open>undefined\<close> where the read throws.\<close>

definition subsection_of :: "jsval \<Rightarrow> string \<Rightarrow> jsval" where
  "subsection_of v k = (case getProp v k of Inl e \<Rightarrow> JUndefined | Inr x \<Rightarrow> x)"

text \<open>
  \<open>contains_fields_of c d\<close>: every top-level field of \<open>d\<close> is a field of \<open>c\<close>, and every
  field of the \<^verbatim>\<open>layout\<close> and \<^verbatim>\<open>colorClasses\<close> subsections of \<open>d\<close> is a field of the
  same subsection of \<open>c\<close>.
\<close>

definition contains_fields_of :: "jsval \<Rightarrow> jsval \<Rightarrow> bool" where
  "contains_fields_of c d \<longleftrightarrow>
     dom (ownProps d) \<subseteq> dom (ownProps c) \<and>
     dom (ownProps (subsection_of d ''layout'')) \<subseteq> dom (ownProps (subsection_of c ''layout'')) \<and>
     dom (ownProps (subsection_of d ''colorClasses'')) \<subseteq>
       dom (ownProps (subsection_of c ''colorClasses''))"

text \<open>
  What holds of every service the constructor returns and every \<open>setConfig\<close> keeps: the
  working configuration is an object, and the default is neither \<^verbatim>\<open>undefined\<close> nor
  \<^verbatim>\<open>null\<close>.
\<close>

definition service_ok :: "FuseConfigService \<Rightarrow> bool" where
  "service_ok this \<longleftrightarrow>
     (case config this of JObj m \<Rightarrow> True | _ \<Rightarrow> False) \<and>
     defaultConfig this \<noteq> JUndefined \<and> defaultConfig this \<noteq> JNull"

section \<open>The navigation service\<close>

text \<open>
  A navigation node, as far as \<^verbatim>\<open>getFlatNavigation\<close> reads it: its \<^verbatim>\<open>type\<close>, \<^verbatim>\<open>title\<close>,
  \<^verbatim>\<open>icon\<close> and \<^verbatim>\<open>url\<close>, and its \<^verbatim>\<open>children\<close> (\<open>None\<close> when the property is absent;
  an array, even an empty one, is truthy).
\<close>

datatype navItem =
  NavItem (item_type: string) (item_title: jsval) (item_icon: jsval) (item_url: jsval)
    (item_children: "navItem list option")

text \<open>An entry pushed to the accumulator: \<^verbatim>\<open>{title, type, icon, url}\<close>.\<close>

record flat_entry =
  title :: jsval
  type' :: string
  icon :: jsval
  url :: jsval

record FuseNavigationService =
  flatNavigation :: "flat_entry list"

text \<open>The field initialiser \<^verbatim>\<open>flatNavigation: any[] = []\<close> of a new instance.\<close>

definition FuseNavigationService_constructor :: FuseNavigationService where
  "FuseNavigationService_constructor = \<lparr>flatNavigation = []\<rparr>"

text \<open>
  \<^verbatim>\<open>getFlatNavigation(navigation)\<close>: the loop over the array is the recursion over the list,
  and the method's own recursive call on the children runs before the rest of the loop.
  The value returned is the accumulator \<open>flatNavigation\<close> of the resulting service. The
  tree is a value apart from the accumulator (the method is not called on its own result).
\<close>

function getFlatNavigation :: "FuseNavigationService \<Rightarrow> navItem list \<Rightarrow> FuseNavigationService" where
  "getFlatNavigation this [] = this"
| "getFlatNavigation this (NavItem ty ti ic u ch # rest) =
     (if ty = ''item'' then
        getFlatNavigation
          (this\<lparr>flatNavigation := flatNavigation this @
             [\<lparr>title = ti, type' = ty, icon = (if truthy ic then ic else JBool False), url = u\<rparr>]\<rparr>)
          rest
      else if ty = ''collapse'' \<or> ty = ''group'' then
        (case ch of
           None \<Rightarrow> getFlatNavigation this rest
         | Some cs \<Rightarrow> getFlatNavigation (getFlatNavigation this cs) rest)
      else getFlatNavigation this rest)"
  by pat_completeness auto
termination
  by (relation "measure (\<lambda>(this, navigation). size_list size navigation)") auto

text \<open>\<open>n\<close> successive calls with the same tree on one service.\<close>

definition getFlatNavigation_calls :: "nat \<Rightarrow> navItem list \<Rightarrow> FuseNavigationService \<Rightarrow> FuseNavigationService" where
  "getFlatNavigation_calls n navigation this = ((\<lambda>s. getFlatNavigation s navigation) ^^ n) this"

text \<open>
  The flattening as the specification words it: a depth-first traversal that yields an
  entry for every \<^verbatim>\<open>item\<close> node, descends into the children of every \<^verbatim>\<open>collapse\<close> and
  \<^verbatim>\<open>group\<close> node in order, and skips a grouping node that has no children.
\<close>

fun depth_first_spec :: "navItem \<Rightarrow> flat_entry list" where
  "depth_first_spec (NavItem ty ti ic u ch) =
     (if ty = ''item'' then
        [\<lparr>title = ti, type' = ''item'', icon = (if truthy ic then ic else JBool False), url = u\<rparr>]
      else if ty = ''collapse'' \<or> ty = ''group'' then
        (case ch of None \<Rightarrow> [] | Some cs \<Rightarrow> concat (map depth_first_spec cs))
      else [])"

definition flatten_spec :: "navItem list \<Rightarrow> flat_entry list" where
  "flatten_spec navigation = concat (map depth_first_spec navigation)"

text \<open>
  The number of item leaves of a tree: the \<^verbatim>\<open>item\<close> nodes found at the top level or below
  \<^verbatim>\<open>collapse\<close> and \<^verbatim>\<open>group\<close> nodes.
\<close>

fun item_leaves_of :: "navItem \<Rightarrow> nat" where
  "item_leaves_of (NavItem ty ti ic u ch) =
     (if ty = ''item'' then 1
      else if ty = ''collapse'' \<or> ty = ''group'' then
        (case ch of None \<Rightarrow> 0 | Some cs \<Rightarrow> sum_list (map item_leaves_of cs))
      else 0)"

definition item_leaves :: "navItem list \<Rightarrow> nat" where
  "item_leaves navigation = sum_list (map item_leaves_of navigation)"

section \<open>The sidebar component\<close>

datatype alignment = AlignLeft | AlignRight

datatype sibling = NextSibling | PreviousSibling

type_synonym element = nat

type_synonym style = "string \<Rightarrow> string option"

text \<open>
  An animation player built by \<^verbatim>\<open>animate('300ms ease', style({opacity: o}))\<close> on an
  element, and whether the removal callback was registered with \<^verbatim>\<open>onDone\<close>.
\<close>

datatype AnimationPlayer = AnimationPlayer (to_opacity: nat) (target: element) (removes_onDone: bool)

datatype subscription = Subscription (closed: bool)

text \<open>
  The calls the component makes on its collaborators, in order: the renderer, the overlay
  elements, the animation player, the sidebar registry (\<^verbatim>\<open>FuseSidebarService\<close>) and the
  media-change subscription. The registry and the framework services are not part of the
  sources modelled here: a call to one of them is recorded as an effect and taken to
  return.
\<close>

datatype effect =
    SetStyle sibling string string
  | RemoveStyle sibling string
  | AddClass string
  | AppendChild element
  | RemoveChild element
  | Play nat element
  | Register "string option"
  | Unregister "string option"
  | Unsubscribe

text \<open>
  The fields of \<^verbatim>\<open>FuseSidebarComponent\<close>. A field the constructor does not assign is
  \<^verbatim>\<open>undefined\<close>, here \<open>None\<close>; the private fields \<^verbatim>\<open>_folded\<close>, \<^verbatim>\<open>_wasActive\<close>,
  \<^verbatim>\<open>_backdrop\<close>, \<^verbatim>\<open>_player\<close> and \<^verbatim>\<open>_onMediaChangeSubscription\<close> carry the prefix
  \<open>p_\<close>. The last fields are the part of the document the component reaches through
  \<^verbatim>\<open>elementRef\<close> and \<^verbatim>\<open>renderer\<close>: the inline styles of the element after and before the
  sidebar (\<open>None\<close> when there is no such element), the overlay elements appended to the
  parent, the classes added to the host element, the number of elements created so far,
  and the log of effects.
\<close>

record FuseSidebarComponent =
  name :: "string option"
  align :: alignment
  opened :: bool
  lockedOpen :: "string option"
  isLockedOpen :: "bool option"
  unfolded :: "bool option"
  p_folded :: "bool option"
  p_wasActive :: "bool option"
  p_backdrop :: "element option"
  p_player :: "AnimationPlayer option"
  p_onMediaChangeSubscription :: "subscription option"
  nextElementSibling :: "style option"
  previousElementSibling :: "style option"
  parentChildren :: "element list"
  hostClasses :: "string list"
  elementCount :: nat
  effects :: "effect list"

text \<open>Truthiness of a boolean field that may be \<^verbatim>\<open>undefined\<close>, and of a string input.\<close>

definition truthy_b :: "bool option \<Rightarrow> bool" where
  "truthy_b b = (b = Some True)"

definition truthy_s :: "string option \<Rightarrow> bool" where
  "truthy_s s = (case s of None \<Rightarrow> False | Some x \<Rightarrow> x \<noteq> [])"

definition sibling_style :: "sibling \<Rightarrow> FuseSidebarComponent \<Rightarrow> style option" where
  "sibling_style sib this =
     (case sib of NextSibling \<Rightarrow> nextElementSibling this
      | PreviousSibling \<Rightarrow> previousElementSibling this)"

definition update_sibling :: "sibling \<Rightarrow> style \<Rightarrow> FuseSidebarComponent \<Rightarrow> FuseSidebarComponent" where
  "update_sibling sib st this =
     (case sib of NextSibling \<Rightarrow> this\<lparr>nextElementSibling := Some st\<rparr>
      | PreviousSibling \<Rightarrow> this\<lparr>previousElementSibling := Some st\<rparr>)"

text \<open>\<^verbatim>\<open>renderer.setStyle(sibling, rule, value)\<close> and \<^verbatim>\<open>renderer.removeStyle(sibling, rule)\<close>.\<close>

definition renderer_setStyle ::
  "sibling \<Rightarrow> style \<Rightarrow> string \<Rightarrow> string \<Rightarrow> FuseSidebarComponent \<Rightarrow> FuseSidebarComponent" where
  "renderer_setStyle sib st styleRule styleValue this =
     (update_sibling sib (st(styleRule \<mapsto> styleValue)) this)
       \<lparr>effects := effects this @ [SetStyle sib styleRule styleValue]\<rparr>"

definition renderer_removeStyle ::
  "sibling \<Rightarrow> style \<Rightarrow> string \<Rightarrow> FuseSidebarComponent \<Rightarrow> FuseSidebarComponent" where
  "renderer_removeStyle sib st styleRule this =
     (update_sibling sib (st(styleRule := None)) this)
       \<lparr>effects := effects this @ [RemoveStyle sib styleRule]\<rparr>"

text \<open>The setter and the getter of the \<^verbatim>\<open>folded\<close> property.\<close>

definition set_folded :: "bool \<Rightarrow> FuseSidebarComponent \<Rightarrow> FuseSidebarComponent" where
  "set_folded v this =
     (if \<not> opened this then this
      else
        let this1 = this\<lparr>p_folded := Some v\<rparr>;
            sib = (if align this1 = AlignLeft then NextSibling else PreviousSibling);
            styleRule = (if align this1 = AlignLeft then ''marginLeft'' else ''marginRight'')
        in case sibling_style sib this1 of
             None \<Rightarrow> this1
           | Some st \<Rightarrow>
               if v then renderer_setStyle sib st styleRule ''64px'' this1
               else renderer_removeStyle sib st styleRule this1)"

definition folded :: "FuseSidebarComponent \<Rightarrow> bool option" where
  "folded this = p_folded this"

text \<open>
  The constructor in a document where the sidebar has the given neighbours. The write
  \<^verbatim>\<open>this.folded = false\<close> goes through the setter, which returns at once because the
  sidebar is closed, so \<^verbatim>\<open>_folded\<close> stays \<^verbatim>\<open>undefined\<close>.
\<close>

definition FuseSidebarComponent_constructor :: "style option \<Rightarrow> style option \<Rightarrow> FuseSidebarComponent" where
  "FuseSidebarComponent_constructor next prev =
     (let this0 = \<lparr>name = None, align = AlignLeft, opened = False, lockedOpen = None,
                    isLockedOpen = None, unfolded = None, p_folded = None, p_wasActive = None,
                    p_backdrop = None, p_player = None, p_onMediaChangeSubscription = None,
                    nextElementSibling = next, previousElementSibling = prev,
                    parentChildren = [], hostClasses = [], elementCount = 0, effects = []\<rparr>;
          this1 = this0\<lparr>opened := False\<rparr>;
          this2 = set_folded False this1
      in this2\<lparr>align := AlignLeft\<rparr>)"

text \<open>
  The input bindings the framework assigns between construction and \<^verbatim>\<open>ngOnInit\<close>; an
  input that is not bound is left as the constructor set it.
\<close>

definition bind_inputs ::
  "string option \<Rightarrow> alignment option \<Rightarrow> string option \<Rightarrow> bool option \<Rightarrow>
     FuseSidebarComponent \<Rightarrow> FuseSidebarComponent" where
  "bind_inputs nm al lo fo this =
     (let this1 = this\<lparr>name := nm\<rparr>;
          this2 = (case al of None \<Rightarrow> this1 | Some a \<Rightarrow> this1\<lparr>align := a\<rparr>);
          this3 = this2\<lparr>lockedOpen := lo\<rparr>
      in case fo of None \<Rightarrow> this3 | Some v \<Rightarrow> set_folded v this3)"

text \<open>
  \<^verbatim>\<open>showBackdrop\<close> creates a new overlay element, appends it to the parent of the sidebar
  and plays the fade-in on it; the click listener it adds to the overlay is the event
  \<open>BackdropClick\<close> below. \<^verbatim>\<open>hideBackdrop\<close> plays the fade-out on the current overlay and
  registers the removal for the end of the animation.
\<close>

definition showBackdrop :: "FuseSidebarComponent \<Rightarrow> FuseSidebarComponent" where
  "showBackdrop this =
     (let b = elementCount this
      in this\<lparr>elementCount := Suc b,
              p_backdrop := Some b,
              parentChildren := parentChildren this @ [b],
              p_player := Some (AnimationPlayer 1 b False),
              effects := effects this @ [AppendChild b, Play 1 b]\<rparr>)"

definition hideBackdrop :: "FuseSidebarComponent \<Rightarrow> FuseSidebarComponent" where
  "hideBackdrop this =
     (case p_backdrop this of
        None \<Rightarrow> this
      | Some b \<Rightarrow> this\<lparr>p_player := Some (AnimationPlayer 0 b True),
                         effects := effects this @ [Play 0 b]\<rparr>)"

text \<open>The callback \<open>hideBackdrop\<close> registers with \<^verbatim>\<open>onDone\<close>, run when the animation ends.\<close>

definition hideBackdrop_onDone :: "FuseSidebarComponent \<Rightarrow> FuseSidebarComponent" where
  "hideBackdrop_onDone this =
     (case p_backdrop this of
        None \<Rightarrow> this
      | Some b \<Rightarrow> this\<lparr>parentChildren := remove1 b (parentChildren this),
                         p_backdrop := None,
                         effects := effects this @ [RemoveChild b]\<rparr>)"

text \<open>
  The public methods \<^verbatim>\<open>open\<close>, \<^verbatim>\<open>close\<close>, \<^verbatim>\<open>fold\<close> and \<^verbatim>\<open>unfold\<close> carry the suffix
  \<open>_sidebar\<close>; the other methods keep their names.
\<close>

definition open_sidebar :: "FuseSidebarComponent \<Rightarrow> FuseSidebarComponent" where
  "open_sidebar this =
     (if opened this \<or> truthy_b (isLockedOpen this) then this
      else (showBackdrop this)\<lparr>opened := True\<rparr>)"

definition close_sidebar :: "FuseSidebarComponent \<Rightarrow> FuseSidebarComponent" where
  "close_sidebar this =
     (if \<not> opened this \<or> truthy_b (isLockedOpen this) then this
      else (hideBackdrop this)\<lparr>opened := False\<rparr>)"

definition toggleOpen :: "FuseSidebarComponent \<Rightarrow> FuseSidebarComponent" where
  "toggleOpen this = (if opened this then close_sidebar this else open_sidebar this)"

definition onMouseEnter :: "FuseSidebarComponent \<Rightarrow> FuseSidebarComponent" where
  "onMouseEnter this = (if \<not> truthy_b (folded this) then this else this\<lparr>unfolded := Some True\<rparr>)"

definition onMouseLeave :: "FuseSidebarComponent \<Rightarrow> FuseSidebarComponent" where
  "onMouseLeave this = (if \<not> truthy_b (folded this) then this else this\<lparr>unfolded := Some False\<rparr>)"

definition fold_sidebar :: "FuseSidebarComponent \<Rightarrow> FuseSidebarComponent" where
  "fold_sidebar this = (if truthy_b (folded this) then this else set_folded True this)"

definition unfold_sidebar :: "FuseSidebarComponent \<Rightarrow> FuseSidebarComponent" where
  "unfold_sidebar this = (if \<not> truthy_b (folded this) then this else set_folded False this)"

definition toggleFold :: "FuseSidebarComponent \<Rightarrow> FuseSidebarComponent" where
  "toggleFold this = (if truthy_b (folded this) then unfold_sidebar this else fold_sidebar this)"

text \<open>
  The read \<^verbatim>\<open>this.fuseConfigService.config.layout.navigationFolded\<close> of the media-change
  handler.
\<close>

definition navigationFolded_of :: "FuseConfigService \<Rightarrow> js_error + jsval" where
  "navigationFolded_of cfg =
     bindE (getProp (config cfg) ''layout'') (\<lambda>l. getProp l ''navigationFolded'')"

text \<open>
  The media-change handler subscribed by \<^verbatim>\<open>_setupLockedOpen\<close>, given the configuration
  service as it is when the event arrives and the answer of
  \<^verbatim>\<open>observableMedia.isActive(this.lockedOpen)\<close>. It returns the component and the exception
  thrown, if any; an exception leaves the assignments made before it in place.
\<close>

definition onMediaChange ::
  "FuseConfigService \<Rightarrow> bool \<Rightarrow> FuseSidebarComponent \<Rightarrow> FuseSidebarComponent \<times> js_error option" where
  "onMediaChange cfg isActive this =
     (if p_wasActive this = Some isActive then (this, None)
      else if isActive then
        (let this1 = this\<lparr>isLockedOpen := Some True\<rparr>;
             this2 = this1\<lparr>opened := True\<rparr>
         in case navigationFolded_of cfg of
              Inl e \<Rightarrow> (this2, Some e)
            | Inr nf \<Rightarrow>
                let this3 = (if truthy nf then fold_sidebar this2 else this2);
                    this4 = hideBackdrop this3
                in (this4\<lparr>p_wasActive := Some isActive\<rparr>, None))
      else
        (let this1 = this\<lparr>isLockedOpen := Some False\<rparr>;
             this2 = unfold_sidebar this1;
             this3 = this2\<lparr>opened := False\<rparr>
         in (this3\<lparr>p_wasActive := Some isActive\<rparr>, None)))"

text \<open>The private methods \<^verbatim>\<open>_setupAlignment\<close> and \<^verbatim>\<open>_setupLockedOpen\<close>.\<close>

definition setupAlignment :: "FuseSidebarComponent \<Rightarrow> FuseSidebarComponent" where
  "setupAlignment this =
     (let c = (if align this = AlignRight then ''right-aligned'' else ''left-aligned'')
      in this\<lparr>hostClasses := hostClasses this @ [c], effects := effects this @ [AddClass c]\<rparr>)"

text \<open>
  The subject \<^verbatim>\<open>onMediaChange\<close> of the match-media service is a
  behaviour subject, so subscribing runs the handler once at once, before the subscription
  is assigned to the field.
\<close>

definition setupLockedOpen ::
  "FuseConfigService \<Rightarrow> bool \<Rightarrow> FuseSidebarComponent \<Rightarrow> FuseSidebarComponent \<times> js_error option" where
  "setupLockedOpen cfg isActive this =
     (if \<not> truthy_s (lockedOpen this) then (this, None)
      else
        let this1 = this\<lparr>p_wasActive := Some False\<rparr>
        in case onMediaChange cfg isActive this1 of
             (this2, Some e) \<Rightarrow> (this2, Some e)
           | (this2, None) \<Rightarrow>
               (this2\<lparr>p_onMediaChangeSubscription := Some (Subscription False)\<rparr>, None))"

definition ngOnInit ::
  "FuseConfigService \<Rightarrow> bool \<Rightarrow> FuseSidebarComponent \<Rightarrow> FuseSidebarComponent \<times> js_error option" where
  "ngOnInit cfg isActive this =
     (let this1 = this\<lparr>effects := effects this @ [Register (name this)]\<rparr>;
          this2 = setupAlignment this1
      in setupLockedOpen cfg isActive this2)"

text \<open>
  \<^verbatim>\<open>ngOnDestroy\<close>. The call \<^verbatim>\<open>this._onMediaChangeSubscription.unsubscribe()\<close> throws a
  TypeError when the field is \<^verbatim>\<open>undefined\<close>.
\<close>

definition ngOnDestroy :: "FuseSidebarComponent \<Rightarrow> FuseSidebarComponent \<times> js_error option" where
  "ngOnDestroy this =
     (let this1 = (if truthy_b (folded this) then unfold_sidebar this else this);
          this2 = this1\<lparr>effects := effects this1 @ [Unregister (name this1)]\<rparr>
      in case p_onMediaChangeSubscription this2 of
           None \<Rightarrow> (this2, Some TypeError)
         | Some sub \<Rightarrow>
             (this2\<lparr>p_onMediaChangeSubscription := Some (Subscription True),
                    effects := effects this2 @ [Unsubscribe]\<rparr>, None))"

text \<open>
  What can happen to a mounted sidebar: a call of one of its public methods, a write to
  the \<^verbatim>\<open>folded\<close> input, a pointer event, a click on the overlay, the end of the hide
  animation, and a media change, which reaches the handler only through an open
  subscription.
\<close>

datatype sidebar_event =
    Open | Close | ToggleOpen | Fold | Unfold | ToggleFold | SetFolded bool
  | MouseEnter | MouseLeave | BackdropClick | AnimationDone
  | MediaChange FuseConfigService bool

fun perform :: "sidebar_event \<Rightarrow> FuseSidebarComponent \<Rightarrow> FuseSidebarComponent" where
  "perform Open this = open_sidebar this"
| "perform Close this = close_sidebar this"
| "perform ToggleOpen this = toggleOpen this"
| "perform Fold this = fold_sidebar this"
| "perform Unfold this = unfold_sidebar this"
| "perform ToggleFold this = toggleFold this"
| "perform (SetFolded v) this = set_folded v this"
| "perform MouseEnter this = onMouseEnter this"
| "perform MouseLeave this = onMouseLeave this"
| "perform BackdropClick this = close_sidebar this"
| "perform AnimationDone this = hideBackdrop_onDone this"
| "perform (MediaChange cfg isActive) this =
     (if p_onMediaChangeSubscription this = Some (Subscription False)
      then fst (onMediaChange cfg isActive this) else this)"

definition perform_all :: "sidebar_event list \<Rightarrow> FuseSidebarComponent \<Rightarrow> FuseSidebarComponent" where
  "perform_all events this = fold perform events this"

section \<open>Properties of the configuration service\<close>

lemma subsection_of_JObj: "subsection_of (JObj m) k = (case m k of None \<Rightarrow> JUndefined | Some x \<Rightarrow> x)"
  by (simp add: subsection_of_def)

lemma setConfig_result:
  assumes "setConfig this cfg = Inr this'"
  shows "config this' = JObj ((ownProps (config this) ++ ownProps cfg)
            (''layout'' \<mapsto> JObj (ownProps (subsection_of (config this) ''layout'') ++ ownProps (subsection_of cfg ''layout'')),
             ''colorClasses'' \<mapsto> JObj (ownProps (subsection_of (config this) ''colorClasses'') ++ ownProps (subsection_of cfg ''colorClasses''))))"
    and "defaultConfig this' = defaultConfig this"
    and "onConfigChanged this' = config this'"
  using assms
  by (auto simp: setConfig_def bindE_def Let_def subsection_of_def split: sum.splits)

lemma setConfig_throws_iff:
  "(\<exists>e. setConfig this cfg = Inl e) \<longleftrightarrow>
     (config this = JUndefined \<or> config this = JNull \<or> cfg = JUndefined \<or> cfg = JNull)"
  by (cases "config this"; cases cfg) (auto simp: setConfig_def bindE_def Let_def split: sum.splits)

lemma setConfig_grows:
  assumes "setConfig this cfg = Inr this'"
  shows "contains_fields_of (config this') (config this)"
  unfolding contains_fields_of_def setConfig_result(1)[OF assms]
  by (auto simp: subsection_of_JObj)

lemma contains_fields_of_trans:
  "contains_fields_of a b \<Longrightarrow> contains_fields_of b c \<Longrightarrow> contains_fields_of a c"
  unfolding contains_fields_of_def by blast

lemma contains_fields_of_refl: "contains_fields_of a a"
  unfolding contains_fields_of_def by simp

lemma setConfig_call_grows: "contains_fields_of (config (setConfig_call cfg this)) (config this)"
  by (auto simp: setConfig_call_def contains_fields_of_refl setConfig_grows split: sum.splits)

lemma setConfig_calls_grows: "contains_fields_of (config (setConfig_calls cfgs this)) (config this)"
  unfolding setConfig_calls_def
proof (induction cfgs arbitrary: this)
  case Nil
  show ?case by (simp add: contains_fields_of_refl)
next
  case (Cons cfg cfgs)
  have "contains_fields_of (config (fold setConfig_call cfgs (setConfig_call cfg this)))
          (config (setConfig_call cfg this))"
    by (rule Cons.IH)
  then show ?case
    using setConfig_call_grows contains_fields_of_trans by fastforce
qed

lemma DEFAULT_CONFIG_fields:
  "dom (ownProps DEFAULT_CONFIG) = {''layout'', ''colorClasses'', ''customScrollbars'', ''routerAnimation''}"
  "dom (ownProps (subsection_of DEFAULT_CONFIG ''layout'')) =
     {''navigation'', ''navigationFolded'', ''toolbar'', ''footer'', ''mode''}"
  "dom (ownProps (subsection_of DEFAULT_CONFIG ''colorClasses'')) = {''toolbar'', ''navbar'', ''footer''}"
  by (auto simp: DEFAULT_CONFIG_def subsection_of_def split: if_splits)

lemma constructor_default:
  "FuseConfigService_constructor JNull mobile = Inr s0 \<Longrightarrow> contains_fields_of (config s0) DEFAULT_CONFIG"
  by (auto simp: FuseConfigService_constructor_def bindE_def DEFAULT_CONFIG_def contains_fields_of_def subsection_of_def Let_def split: if_splits)

text \<open>
  Claim C1. A service constructed without an injected configuration starts from
  \<open>DEFAULT_CONFIG\<close> (with \<^verbatim>\<open>customScrollbars\<close> forced to false on a mobile platform). After
  any sequence of \<open>setConfig\<close> calls, with any arguments and including calls that throw,
  the configuration still has every field of the default: the four top-level keys, the
  five keys of \<^verbatim>\<open>layout\<close> and the three keys of \<^verbatim>\<open>colorClasses\<close>.
\<close>

theorem setConfig_keeps_default_fields:
  "case FuseConfigService_constructor JNull mobile of
     Inl e \<Rightarrow> False
   | Inr s0 \<Rightarrow>
       (let c = config (setConfig_calls cfgs s0) in
        contains_fields_of c DEFAULT_CONFIG \<and>
        {''layout'', ''colorClasses'', ''customScrollbars'', ''routerAnimation''} \<subseteq> dom (ownProps c) \<and>
        {''navigation'', ''navigationFolded'', ''toolbar'', ''footer'', ''mode''}
          \<subseteq> dom (ownProps (subsection_of c ''layout'')) \<and>
        {''toolbar'', ''navbar'', ''footer''} \<subseteq> dom (ownProps (subsection_of c ''colorClasses'')))"
proof (cases "FuseConfigService_constructor JNull mobile")
  case (Inl e)
  then show ?thesis
    by (simp add: FuseConfigService_constructor_def bindE_def DEFAULT_CONFIG_def Let_def split: if_splits)
next
  case (Inr s0)
  have "contains_fields_of (config (setConfig_calls cfgs s0)) DEFAULT_CONFIG"
    using setConfig_calls_grows constructor_default[OF Inr] contains_fields_of_trans by blast
  then show ?thesis
    using Inr DEFAULT_CONFIG_fields
    by (simp add: Let_def contains_fields_of_def)
qed


theorem setConfig_keeps_default_fields_witness:
  "case FuseConfigService_constructor JNull False of
     Inl e \<Rightarrow> False
   | Inr s0 \<Rightarrow>
       (let c = config (setConfig_calls
                  [JObj [''layout'' \<mapsto> JObj [''mode'' \<mapsto> JStr ''boxed'']],
                   JUndefined,
                   JObj [''customScrollbars'' \<mapsto> JUndefined, ''layout'' \<mapsto> JNum 3]] s0) in
        contains_fields_of c DEFAULT_CONFIG \<and>
        {''layout'', ''colorClasses'', ''customScrollbars'', ''routerAnimation''} \<subseteq> dom (ownProps c) \<and>
        {''navigation'', ''navigationFolded'', ''toolbar'', ''footer'', ''mode''}
          \<subseteq> dom (ownProps (subsection_of c ''layout'')) \<and>
        {''toolbar'', ''navbar'', ''footer''} \<subseteq> dom (ownProps (subsection_of c ''colorClasses'')))"
  by (rule setConfig_keeps_default_fields)

lemma constructor_ok:
  "FuseConfigService_constructor custom mobile = Inr s0 \<Longrightarrow> service_ok s0"
  by (cases custom)
     (auto simp: FuseConfigService_constructor_def bindE_def DEFAULT_CONFIG_def service_ok_def
        Let_def split: if_splits sum.splits)

lemma setConfig_call_ok: "service_ok this \<Longrightarrow> service_ok (setConfig_call cfg this)"
  by (auto simp: setConfig_call_def service_ok_def setConfig_result split: sum.splits)

lemma setConfig_call_defaultConfig: "defaultConfig (setConfig_call cfg this) = defaultConfig this"
  by (auto simp: setConfig_call_def setConfig_result split: sum.splits)

lemma setConfig_calls_ok: "service_ok this \<Longrightarrow> service_ok (setConfig_calls cfgs this)"
  unfolding setConfig_calls_def
  by (induction cfgs arbitrary: this) (simp_all add: setConfig_call_ok)

lemma setConfig_calls_defaultConfig:
  "defaultConfig (setConfig_calls cfgs this) = defaultConfig this"
  unfolding setConfig_calls_def
  by (induction cfgs arbitrary: this) (simp_all add: setConfig_call_defaultConfig)

lemma onNavigationStart_ok:
  assumes "service_ok this"
  shows "\<exists>this'. onNavigationStart this = Inr this'"
proof -
  obtain m where m: "config this = JObj m"
    using assms by (auto simp: service_ok_def split: jsval.splits)
  obtain l where l: "getProp (defaultConfig this) ''layout'' = Inr l"
    using assms by (cases "defaultConfig this") (auto simp: service_ok_def)
  show ?thesis
    by (simp add: onNavigationStart_def setConfig_def bindE_def l m Let_def)
qed

lemma onNavigationStart_result:
  assumes "onNavigationStart this = Inr this'"
  shows "ownProps (subsection_of (config this') ''layout'') =
           ownProps (subsection_of (config this) ''layout'') ++
           ownProps (subsection_of (defaultConfig this) ''layout'')"
    and "ownProps (subsection_of (config this') ''colorClasses'') =
           ownProps (subsection_of (config this) ''colorClasses'')"
    and "k \<noteq> ''layout'' \<Longrightarrow> k \<noteq> ''colorClasses'' \<Longrightarrow>
           ownProps (config this') k = ownProps (config this) k"
    and "defaultConfig this' = defaultConfig this"
proof -
  obtain l where l: "getProp (defaultConfig this) ''layout'' = Inr l"
    and sc: "setConfig this (JObj [''layout'' \<mapsto> l]) = Inr this'"
    using assms by (auto simp: onNavigationStart_def bindE_def split: sum.splits)
  have dl: "subsection_of (defaultConfig this) ''layout'' = l"
    using l by (simp add: subsection_of_def)
  note r = setConfig_result[OF sc]
  show "ownProps (subsection_of (config this') ''layout'') =
           ownProps (subsection_of (config this) ''layout'') ++
           ownProps (subsection_of (defaultConfig this) ''layout'')"
    by (simp add: r(1) subsection_of_JObj dl)
  show "ownProps (subsection_of (config this') ''colorClasses'') =
           ownProps (subsection_of (config this) ''colorClasses'')"
    by (simp add: r(1) subsection_of_JObj)
  show "k \<noteq> ''layout'' \<Longrightarrow> k \<noteq> ''colorClasses'' \<Longrightarrow>
           ownProps (config this') k = ownProps (config this) k"
    by (simp add: r(1) map_add_def)
  show "defaultConfig this' = defaultConfig this"
    by (rule r(2))
qed

lemma default_service:
  "FuseConfigService_constructor JNull False =
     Inr \<lparr>config = JObj (ownProps DEFAULT_CONFIG), defaultConfig = DEFAULT_CONFIG,
          onConfigChanged = JObj (ownProps DEFAULT_CONFIG)\<rparr>"
  by (simp add: FuseConfigService_constructor_def bindE_def Let_def)


text \<open>
  Claim C2, as the code has it. On every service reached from the constructor by any
  sequence of \<open>setConfig\<close> calls, a navigation-start event does not throw and merges the
  stored default's \<^verbatim>\<open>layout\<close> over the current one: every field that the default's layout
  has is back at its default value, and the layout equals the default's layout whenever
  the current layout has no field outside the default's. The \<^verbatim>\<open>colorClasses\<close> subsection
  and every other top-level field (\<^verbatim>\<open>customScrollbars\<close> among them) keep their values,
  and so does the stored default.
\<close>

theorem navigationStart_resets_default_layout_fields:
  assumes "FuseConfigService_constructor custom mobile = Inr s0"
  shows "\<exists>s'. onNavigationStart (setConfig_calls cfgs s0) = Inr s' \<and>
           ownProps (subsection_of (config s') ''layout'') =
             ownProps (subsection_of (config (setConfig_calls cfgs s0)) ''layout'') ++
             ownProps (subsection_of (defaultConfig s0) ''layout'') \<and>
           (\<forall>k \<in> dom (ownProps (subsection_of (defaultConfig s0) ''layout'')).
              ownProps (subsection_of (config s') ''layout'') k =
              ownProps (subsection_of (defaultConfig s0) ''layout'') k) \<and>
           (dom (ownProps (subsection_of (config (setConfig_calls cfgs s0)) ''layout''))
              \<subseteq> dom (ownProps (subsection_of (defaultConfig s0) ''layout'')) \<longrightarrow>
            ownProps (subsection_of (config s') ''layout'') =
              ownProps (subsection_of (defaultConfig s0) ''layout'')) \<and>
           ownProps (subsection_of (config s') ''colorClasses'') =
             ownProps (subsection_of (config (setConfig_calls cfgs s0)) ''colorClasses'') \<and>
           (\<forall>k. k \<noteq> ''layout'' \<and> k \<noteq> ''colorClasses'' \<longrightarrow>
              ownProps (config s') k = ownProps (config (setConfig_calls cfgs s0)) k) \<and>
           defaultConfig s' = defaultConfig s0"
proof -
  let ?s = "setConfig_calls cfgs s0"
  have ok: "service_ok ?s"
    using assms constructor_ok setConfig_calls_ok by blast
  then obtain s' where s': "onNavigationStart ?s = Inr s'"
    using onNavigationStart_ok by blast
  have d: "defaultConfig ?s = defaultConfig s0"
    by (rule setConfig_calls_defaultConfig)
  note r = onNavigationStart_result[OF s', unfolded d]
  have lay: "ownProps (subsection_of (config s') ''layout'') =
      ownProps (subsection_of (config ?s) ''layout'') ++
      ownProps (subsection_of (defaultConfig s0) ''layout'')"
    by (rule r(1))
  have a: "\<forall>k \<in> dom (ownProps (subsection_of (defaultConfig s0) ''layout'')).
              ownProps (subsection_of (config s') ''layout'') k =
              ownProps (subsection_of (defaultConfig s0) ''layout'') k"
    unfolding lay by (auto simp: map_add_def)
  have b: "dom (ownProps (subsection_of (config ?s) ''layout''))
              \<subseteq> dom (ownProps (subsection_of (defaultConfig s0) ''layout'')) \<longrightarrow>
            ownProps (subsection_of (config s') ''layout'') =
              ownProps (subsection_of (defaultConfig s0) ''layout'')"
  proof
    assume sub: "dom (ownProps (subsection_of (config ?s) ''layout''))
              \<subseteq> dom (ownProps (subsection_of (defaultConfig s0) ''layout''))"
    show "ownProps (subsection_of (config s') ''layout'') =
              ownProps (subsection_of (defaultConfig s0) ''layout'')"
      unfolding lay
    proof (rule ext)
      fix k
      show "(ownProps (subsection_of (config ?s) ''layout'') ++
             ownProps (subsection_of (defaultConfig s0) ''layout'')) k =
            ownProps (subsection_of (defaultConfig s0) ''layout'') k"
        using sub by (cases "ownProps (subsection_of (defaultConfig s0) ''layout'') k")
          (auto simp: map_add_def)
    qed
  qed
  show ?thesis
    using s' lay a b r(2) r(3) r(4) by blast
qed


theorem navigationStart_resets_default_layout_fields_witness:
  "case FuseConfigService_constructor JNull False of
     Inl e \<Rightarrow> False
   | Inr s0 \<Rightarrow>
      (case onNavigationStart (setConfig_calls
               [JObj [''layout'' \<mapsto> JObj [''mode'' \<mapsto> JStr ''boxed''],
                      ''colorClasses'' \<mapsto> JObj [''toolbar'' \<mapsto> JStr ''mat-red-500-bg'']],
                JObj [''customScrollbars'' \<mapsto> JBool False]] s0) of
         Inl e \<Rightarrow> False
       | Inr s' \<Rightarrow>
           ownProps (subsection_of (config s') ''layout'') ''mode'' = Some (JStr ''fullwidth'') \<and>
           ownProps (subsection_of (config s') ''colorClasses'') ''toolbar'' =
             Some (JStr ''mat-red-500-bg'') \<and>
           ownProps (config s') ''customScrollbars'' = Some (JBool False))"
proof -
  let ?cfgs = "[JObj [''layout'' \<mapsto> JObj [''mode'' \<mapsto> JStr ''boxed''],
                      ''colorClasses'' \<mapsto> JObj [''toolbar'' \<mapsto> JStr ''mat-red-500-bg'']],
                JObj [''customScrollbars'' \<mapsto> JBool False]]"
  let ?s0 = "\<lparr>config = JObj (ownProps DEFAULT_CONFIG), defaultConfig = DEFAULT_CONFIG,
          onConfigChanged = JObj (ownProps DEFAULT_CONFIG)\<rparr>"
  obtain s' where s': "onNavigationStart (setConfig_calls ?cfgs ?s0) = Inr s'"
    and lay: "\<forall>k \<in> dom (ownProps (subsection_of (defaultConfig ?s0) ''layout'')).
              ownProps (subsection_of (config s') ''layout'') k =
              ownProps (subsection_of (defaultConfig ?s0) ''layout'') k"
    and col: "ownProps (subsection_of (config s') ''colorClasses'') =
             ownProps (subsection_of (config (setConfig_calls ?cfgs ?s0)) ''colorClasses'')"
    and top: "\<forall>k. k \<noteq> ''layout'' \<and> k \<noteq> ''colorClasses'' \<longrightarrow>
              ownProps (config s') k = ownProps (config (setConfig_calls ?cfgs ?s0)) k"
    using navigationStart_resets_default_layout_fields[OF default_service, of ?cfgs]
    by (elim exE conjE) simp
  have dl: "ownProps (subsection_of (defaultConfig ?s0) ''layout'') ''mode'' = Some (JStr ''fullwidth'')"
    by (simp add: DEFAULT_CONFIG_def subsection_of_def)
  have "ownProps (subsection_of (config s') ''layout'') ''mode'' =
          ownProps (subsection_of (defaultConfig ?s0) ''layout'') ''mode''"
    by (rule bspec[OF lay]) (simp add: domIff DEFAULT_CONFIG_def subsection_of_def)
  then have 1: "ownProps (subsection_of (config s') ''layout'') ''mode'' = Some (JStr ''fullwidth'')"
    using dl by simp
  have "ownProps (subsection_of (config (setConfig_calls ?cfgs ?s0)) ''colorClasses'') ''toolbar'' =
          Some (JStr ''mat-red-500-bg'')"
    by (simp add: setConfig_calls_def setConfig_call_def setConfig_def bindE_def Let_def
          DEFAULT_CONFIG_def subsection_of_def map_add_def)
  then have 2: "ownProps (subsection_of (config s') ''colorClasses'') ''toolbar'' =
          Some (JStr ''mat-red-500-bg'')"
    using col by simp
  have "ownProps (config (setConfig_calls ?cfgs ?s0)) ''customScrollbars'' = Some (JBool False)"
    by (simp add: setConfig_calls_def setConfig_call_def setConfig_def bindE_def Let_def
          DEFAULT_CONFIG_def subsection_of_def map_add_def)
  moreover have "ownProps (config s') ''customScrollbars'' =
      ownProps (config (setConfig_calls ?cfgs ?s0)) ''customScrollbars''"
    by (rule spec[OF top, THEN mp]) simp
  ultimately have 3: "ownProps (config s') ''customScrollbars'' = Some (JBool False)"
    by simp
  show ?thesis
    by (simp only: default_service sum.case s' 1 2 3 simp_thms)
qed



text \<open>
  The claim as stated, that the whole layout subsection is reset to the default's layout,
  fails once a \<open>setConfig\<close> call has added a layout field the default does not have:
  after \<^verbatim>\<open>setConfig({layout: {extra: 'x'}})\<close> and a navigation start, the layout still
  has \<^verbatim>\<open>extra\<close> and differs from the default's layout.
\<close>

theorem navigationStart_entire_layout_counterexample:
  "case FuseConfigService_constructor JNull False of
     Inl e \<Rightarrow> False
   | Inr s0 \<Rightarrow>
      (case onNavigationStart (setConfig_calls
               [JObj [''layout'' \<mapsto> JObj [''extra'' \<mapsto> JStr ''x'']]] s0) of
         Inl e \<Rightarrow> False
       | Inr s' \<Rightarrow>
           ownProps (subsection_of (config s') ''layout'') ''extra'' = Some (JStr ''x'') \<and>
           ownProps (subsection_of (defaultConfig s') ''layout'') ''extra'' = None \<and>
           subsection_of (config s') ''layout'' \<noteq> subsection_of (defaultConfig s') ''layout'')"
proof -
  let ?cfgs = "[JObj [''layout'' \<mapsto> JObj [''extra'' \<mapsto> JStr ''x'']]]"
  let ?s0 = "\<lparr>config = JObj (ownProps DEFAULT_CONFIG), defaultConfig = DEFAULT_CONFIG,
          onConfigChanged = JObj (ownProps DEFAULT_CONFIG)\<rparr>"
  let ?s = "setConfig_calls ?cfgs ?s0"
  have "service_ok ?s"
    using constructor_ok[OF default_service] setConfig_calls_ok by blast
  then obtain s' where s': "onNavigationStart ?s = Inr s'"
    using onNavigationStart_ok by blast
  have d: "defaultConfig s' = DEFAULT_CONFIG"
    using onNavigationStart_result(4)[OF s'] by (simp add: setConfig_calls_defaultConfig)
  have 2: "ownProps (subsection_of (defaultConfig s') ''layout'') ''extra'' = None"
    unfolding d by (simp add: DEFAULT_CONFIG_def subsection_of_def)
  have "ownProps (subsection_of (config ?s) ''layout'') ''extra'' = Some (JStr ''x'')"
    by (simp add: setConfig_calls_def setConfig_call_def setConfig_def bindE_def Let_def
          DEFAULT_CONFIG_def subsection_of_def map_add_def)
  then have 1: "ownProps (subsection_of (config s') ''layout'') ''extra'' = Some (JStr ''x'')"
    using onNavigationStart_result(1)[OF s'] 2
    by (simp add: setConfig_calls_defaultConfig d map_add_def)
  have 3: "subsection_of (config s') ''layout'' \<noteq> subsection_of (defaultConfig s') ''layout''"
    using 1 2 by auto
  show ?thesis
    by (simp only: default_service sum.case s' 1 2 3 simp_thms)
qed


section \<open>Properties of the navigation service\<close>

lemma getFlatNavigation_appends:
  "getFlatNavigation this navigation =
     this\<lparr>flatNavigation := flatNavigation this @ flatten_spec navigation\<rparr>"
proof (induction this navigation rule: getFlatNavigation.induct)
  case (1 this)
  show ?case by (simp add: flatten_spec_def)
next
  case (2 this ty ti ic u ch rest)
  show ?case
  proof (cases "ty = ''item''")
    case True
    then show ?thesis
      using "2.IH"(1) by (simp add: flatten_spec_def)
  next
    case notItem: False
    show ?thesis
    proof (cases "ty = ''collapse'' \<or> ty = ''group''")
      case grouping: True
      show ?thesis
      proof (cases ch)
        case None
        then show ?thesis
          using notItem grouping "2.IH"(2) by (simp add: flatten_spec_def)
      next
        case (Some cs)
        then show ?thesis
          using notItem grouping "2.IH"(3)[OF notItem grouping Some] "2.IH"(4)[OF notItem grouping Some]
          by (simp add: flatten_spec_def)
      qed
    next
      case False
      then show ?thesis
        using notItem "2.IH"(5) by (simp add: flatten_spec_def)
    qed
  qed
qed

lemma length_depth_first_spec: "length (depth_first_spec n) = item_leaves_of n"
proof (induction n rule: depth_first_spec.induct)
  case (1 ty ti ic u ch)
  show ?case
  proof (cases ch)
    case None
    then show ?thesis by simp
  next
    case (Some cs)
    have "(\<Sum>x\<leftarrow>cs. length (depth_first_spec x)) = sum_list (map item_leaves_of cs)"
      if "ty \<noteq> ''item''" "ty = ''collapse'' \<or> ty = ''group''"
      using "1.IH"[OF that Some] by (intro arg_cong[where f = sum_list]) simp
    then show ?thesis
      using Some by (auto simp: length_concat comp_def)
  qed
qed

lemma length_flatten_spec: "length (flatten_spec navigation) = item_leaves navigation"
  by (simp add: flatten_spec_def item_leaves_def length_concat comp_def length_depth_first_spec)

lemma concat_replicate_snoc: "concat (replicate n xs) @ xs = xs @ concat (replicate n xs)"
  by (induction n) simp_all

lemma getFlatNavigation_calls_appends:
  "getFlatNavigation_calls n navigation this =
     this\<lparr>flatNavigation := flatNavigation this @ concat (replicate n (flatten_spec navigation))\<rparr>"
  unfolding getFlatNavigation_calls_def
  by (induction n) (simp_all add: getFlatNavigation_appends concat_replicate_snoc)

text \<open>
  Claim C8. On a new service the tree with one group holding the item Sample flattens to
  exactly the one entry \<^verbatim>\<open>{title: 'Sample', type: 'item', icon: false, url: '/sample'}\<close>.
  In general the accumulator after a call is the accumulator before it followed by the
  depth-first flattening of the tree as the specification words it: an entry for each
  item in order, the children of collapse and group nodes visited in place, a grouping
  node without children skipped, and \<^verbatim>\<open>icon\<close> set to \<^verbatim>\<open>false\<close> when the node has none.
\<close>

theorem getFlatNavigation_depth_first:
  "flatNavigation (getFlatNavigation this navigation) = flatNavigation this @ flatten_spec navigation \<and>
   flatNavigation (getFlatNavigation FuseNavigationService_constructor
      [NavItem ''group'' JUndefined JUndefined JUndefined
         (Some [NavItem ''item'' (JStr ''Sample'') JUndefined (JStr ''/sample'') None])]) =
     [\<lparr>title = JStr ''Sample'', type' = ''item'', icon = JBool False, url = JStr ''/sample''\<rparr>]"
  by (simp add: getFlatNavigation_appends flatten_spec_def FuseNavigationService_constructor_def)

theorem getFlatNavigation_depth_first_witness:
  "flatNavigation (getFlatNavigation \<lparr>flatNavigation = []\<rparr>
      [NavItem ''item'' (JStr ''A'') (JStr ''home'') (JStr ''/a'') None,
       NavItem ''collapse'' (JStr ''B'') JUndefined JUndefined None,
       NavItem ''divider'' JUndefined JUndefined JUndefined None,
       NavItem ''collapse'' (JStr ''C'') JUndefined JUndefined
         (Some [NavItem ''item'' (JStr ''D'') (JStr []) (JStr ''/d'') None]),
       NavItem ''item'' (JStr ''E'') JUndefined (JStr ''/e'') None]) =
     [\<lparr>title = JStr ''A'', type' = ''item'', icon = JStr ''home'', url = JStr ''/a''\<rparr>,
      \<lparr>title = JStr ''D'', type' = ''item'', icon = JBool False, url = JStr ''/d''\<rparr>,
      \<lparr>title = JStr ''E'', type' = ''item'', icon = JBool False, url = JStr ''/e''\<rparr>]"
  using getFlatNavigation_depth_first[of "\<lparr>flatNavigation = []\<rparr>"
      "[NavItem ''item'' (JStr ''A'') (JStr ''home'') (JStr ''/a'') None,
       NavItem ''collapse'' (JStr ''B'') JUndefined JUndefined None,
       NavItem ''divider'' JUndefined JUndefined JUndefined None,
       NavItem ''collapse'' (JStr ''C'') JUndefined JUndefined
         (Some [NavItem ''item'' (JStr ''D'') (JStr []) (JStr ''/d'') None]),
       NavItem ''item'' (JStr ''E'') JUndefined (JStr ''/e'') None]"]
  by (simp add: flatten_spec_def)

text \<open>
  Claim C7. A call appends to the accumulator and never resets it: after \<open>n\<close> calls with
  the same tree the accumulator is what it was before, followed by \<open>n\<close> copies of the
  flattened tree. Two calls leave the flattened entries twice, and on a new service the
  list returned by the \<open>n\<close>-th call has length \<open>n * k\<close> for a tree with \<open>k\<close> item
  leaves.
\<close>

theorem getFlatNavigation_repeated_calls:
  "flatNavigation (getFlatNavigation_calls n navigation this) =
     flatNavigation this @ concat (replicate n (flatten_spec navigation)) \<and>
   flatNavigation (getFlatNavigation (getFlatNavigation this navigation) navigation) =
     flatNavigation this @ flatten_spec navigation @ flatten_spec navigation \<and>
   length (flatNavigation (getFlatNavigation_calls n navigation this)) =
     length (flatNavigation this) + n * item_leaves navigation \<and>
   length (flatNavigation (getFlatNavigation_calls n navigation FuseNavigationService_constructor)) =
     n * item_leaves navigation \<and>
   count_list (flatNavigation
       (getFlatNavigation (getFlatNavigation FuseNavigationService_constructor navigation) navigation)) e =
     2 * count_list (flatten_spec navigation) e"
  by (simp add: getFlatNavigation_calls_appends getFlatNavigation_appends length_concat
        sum_list_replicate length_flatten_spec FuseNavigationService_constructor_def)

theorem getFlatNavigation_repeated_calls_witness:
  "flatNavigation (getFlatNavigation_calls 3
      [NavItem ''group'' JUndefined JUndefined JUndefined
         (Some [NavItem ''item'' (JStr ''Sample'') JUndefined (JStr ''/sample'') None])]
      FuseNavigationService_constructor) =
     [\<lparr>title = JStr ''Sample'', type' = ''item'', icon = JBool False, url = JStr ''/sample''\<rparr>,
      \<lparr>title = JStr ''Sample'', type' = ''item'', icon = JBool False, url = JStr ''/sample''\<rparr>,
      \<lparr>title = JStr ''Sample'', type' = ''item'', icon = JBool False, url = JStr ''/sample''\<rparr>] \<and>
   length (flatNavigation (getFlatNavigation_calls 3
      [NavItem ''group'' JUndefined JUndefined JUndefined
         (Some [NavItem ''item'' (JStr ''Sample'') JUndefined (JStr ''/sample'') None])]
      FuseNavigationService_constructor)) = 3 * 1"
  using getFlatNavigation_repeated_calls[of 3 "[NavItem ''group'' JUndefined JUndefined JUndefined
         (Some [NavItem ''item'' (JStr ''Sample'') JUndefined (JStr ''/sample'') None])]"
       FuseNavigationService_constructor]
  by (simp add: flatten_spec_def FuseNavigationService_constructor_def item_leaves_def
        numeral_3_eq_3)


section \<open>Properties of the sidebar component\<close>

lemmas sidebar_defs =
  set_folded_def folded_def fold_sidebar_def unfold_sidebar_def toggleFold_def
  open_sidebar_def close_sidebar_def toggleOpen_def onMouseEnter_def onMouseLeave_def
  showBackdrop_def hideBackdrop_def hideBackdrop_onDone_def
  renderer_setStyle_def renderer_removeStyle_def update_sibling_def sibling_style_def
  truthy_b_def

lemma set_folded_closed: "\<not> opened this \<Longrightarrow> set_folded v this = this"
  by (simp add: set_folded_def)

lemma fold_sidebar_closed: "\<not> opened this \<Longrightarrow> fold_sidebar this = this"
  by (simp add: fold_sidebar_def set_folded_closed)

lemma unfold_sidebar_closed: "\<not> opened this \<Longrightarrow> unfold_sidebar this = this"
  by (simp add: unfold_sidebar_def set_folded_closed)

lemma set_folded_subscription [simp]:
  "p_onMediaChangeSubscription (set_folded v this) = p_onMediaChangeSubscription this"
  by (simp add: sidebar_defs Let_def split: option.splits sibling.splits)

lemma hideBackdrop_subscription [simp]:
  "p_onMediaChangeSubscription (hideBackdrop this) = p_onMediaChangeSubscription this"
  by (simp add: hideBackdrop_def split: option.splits)

lemma fold_subscription [simp]:
  "p_onMediaChangeSubscription (fold_sidebar this) = p_onMediaChangeSubscription this"
  "p_onMediaChangeSubscription (unfold_sidebar this) = p_onMediaChangeSubscription this"
  by (simp_all add: fold_sidebar_def unfold_sidebar_def)

lemma open_close_subscription [simp]:
  "p_onMediaChangeSubscription (open_sidebar this) = p_onMediaChangeSubscription this"
  "p_onMediaChangeSubscription (close_sidebar this) = p_onMediaChangeSubscription this"
  by (simp_all add: open_sidebar_def close_sidebar_def showBackdrop_def Let_def)

lemma onMediaChange_subscription [simp]:
  "p_onMediaChangeSubscription (fst (onMediaChange cfg a this)) = p_onMediaChangeSubscription this"
  by (simp add: onMediaChange_def Let_def split: sum.splits)

lemma perform_subscription [simp]:
  "p_onMediaChangeSubscription (perform ev this) = p_onMediaChangeSubscription this"
  by (cases ev)
     (simp_all add: toggleOpen_def toggleFold_def onMouseEnter_def onMouseLeave_def
        hideBackdrop_onDone_def split: option.splits)

lemma perform_all_subscription:
  "p_onMediaChangeSubscription (perform_all events this) = p_onMediaChangeSubscription this"
  unfolding perform_all_def by (induction events arbitrary: this) simp_all

lemma ngOnDestroy_throws_iff:
  "snd (ngOnDestroy this) = None \<longleftrightarrow> p_onMediaChangeSubscription this \<noteq> None"
  "snd (ngOnDestroy this) = Some TypeError \<longleftrightarrow> p_onMediaChangeSubscription this = None"
  by (auto simp: ngOnDestroy_def Let_def split: option.splits)

lemma created_fields:
  "p_onMediaChangeSubscription (bind_inputs nm al lo fo (FuseSidebarComponent_constructor nxt prv)) = None"
  "lockedOpen (bind_inputs nm al lo fo (FuseSidebarComponent_constructor nxt prv)) = lo"
  by (simp_all add: bind_inputs_def FuseSidebarComponent_constructor_def Let_def set_folded_def
        split: option.splits)

lemma setupLockedOpen_subscription:
  assumes "setupLockedOpen cfg a this = (this', err)" "p_onMediaChangeSubscription this = None"
  shows "\<not> truthy_s (lockedOpen this) \<Longrightarrow> p_onMediaChangeSubscription this' = None"
    and "truthy_s (lockedOpen this) \<Longrightarrow> err = None \<Longrightarrow> p_onMediaChangeSubscription this' \<noteq> None"
  using assms
  by (auto simp: setupLockedOpen_def Let_def split: if_splits prod.splits option.splits)

lemma ngOnInit_subscription:
  assumes "ngOnInit cfg a this = (this', err)" "p_onMediaChangeSubscription this = None"
  shows "\<not> truthy_s (lockedOpen this) \<Longrightarrow> p_onMediaChangeSubscription this' = None"
    and "truthy_s (lockedOpen this) \<Longrightarrow> err = None \<Longrightarrow> p_onMediaChangeSubscription this' \<noteq> None"
proof -
  let ?t = "setupAlignment (this\<lparr>effects := effects this @ [Register (name this)]\<rparr>)"
  have s: "setupLockedOpen cfg a ?t = (this', err)"
    using assms(1) by (simp add: ngOnInit_def Let_def)
  have n: "p_onMediaChangeSubscription ?t = None" "lockedOpen ?t = lockedOpen this"
    using assms(2) by (simp_all add: setupAlignment_def Let_def)
  show "\<not> truthy_s (lockedOpen this) \<Longrightarrow> p_onMediaChangeSubscription this' = None"
    using setupLockedOpen_subscription(1)[OF s n(1)] n(2) by simp
  show "truthy_s (lockedOpen this) \<Longrightarrow> err = None \<Longrightarrow> p_onMediaChangeSubscription this' \<noteq> None"
    using setupLockedOpen_subscription(2)[OF s n(1)] n(2) by simp
qed

lemma set_folded_fields [simp]:
  "opened (set_folded v this) = opened this"
  "isLockedOpen (set_folded v this) = isLockedOpen this"
  "p_backdrop (set_folded v this) = p_backdrop this"
  "p_player (set_folded v this) = p_player this"
  "parentChildren (set_folded v this) = parentChildren this"
  "p_wasActive (set_folded v this) = p_wasActive this"
  "align (set_folded v this) = align this"
  "name (set_folded v this) = name this"
  by (simp_all add: set_folded_def renderer_setStyle_def renderer_removeStyle_def
        update_sibling_def Let_def split: option.splits sibling.splits)

lemma set_folded_opened: "opened this \<Longrightarrow> folded (set_folded v this) = Some v"
  by (simp add: set_folded_def folded_def renderer_setStyle_def renderer_removeStyle_def
        update_sibling_def Let_def split: option.splits sibling.splits)

lemma fold_sidebar_fields [simp]:
  "opened (fold_sidebar this) = opened this"
  "isLockedOpen (fold_sidebar this) = isLockedOpen this"
  "p_backdrop (fold_sidebar this) = p_backdrop this"
  "p_player (fold_sidebar this) = p_player this"
  "parentChildren (fold_sidebar this) = parentChildren this"
  "p_wasActive (fold_sidebar this) = p_wasActive this"
  "align (fold_sidebar this) = align this"
  by (simp_all add: fold_sidebar_def)

lemma fold_sidebar_opened: "opened this \<Longrightarrow> folded (fold_sidebar this) = Some True"
  by (simp add: fold_sidebar_def truthy_b_def set_folded_opened)

lemma hideBackdrop_fields [simp]:
  "opened (hideBackdrop this) = opened this"
  "isLockedOpen (hideBackdrop this) = isLockedOpen this"
  "p_backdrop (hideBackdrop this) = p_backdrop this"
  "parentChildren (hideBackdrop this) = parentChildren this"
  "folded (hideBackdrop this) = folded this"
  "nextElementSibling (hideBackdrop this) = nextElementSibling this"
  "previousElementSibling (hideBackdrop this) = previousElementSibling this"
  "align (hideBackdrop this) = align this"
  by (simp_all add: hideBackdrop_def folded_def split: option.splits)

lemma hideBackdrop_player:
  "p_player (hideBackdrop this) =
     (case p_backdrop this of None \<Rightarrow> p_player this | Some b \<Rightarrow> Some (AnimationPlayer 0 b True))"
  by (simp add: hideBackdrop_def split: option.splits)

lemma showBackdrop_fields [simp]:
  "opened (showBackdrop this) = opened this"
  "isLockedOpen (showBackdrop this) = isLockedOpen this"
  "folded (showBackdrop this) = folded this"
  "nextElementSibling (showBackdrop this) = nextElementSibling this"
  "previousElementSibling (showBackdrop this) = previousElementSibling this"
  "align (showBackdrop this) = align this"
  by (simp_all add: showBackdrop_def folded_def Let_def)

lemma folded_update_simps [simp]:
  "folded (this\<lparr>opened := b\<rparr>) = folded this"
  "folded (this\<lparr>isLockedOpen := l\<rparr>) = folded this"
  "folded (this\<lparr>p_wasActive := w\<rparr>) = folded this"
  by (simp_all add: folded_def)

lemma fold_sidebar_margin:
  assumes "opened this" "folded this \<noteq> Some True"
    and "sibling_style (if align this = AlignLeft then NextSibling else PreviousSibling) this = Some st"
  shows "sibling_style (if align this = AlignLeft then NextSibling else PreviousSibling)
           (fold_sidebar this) =
         Some (st((if align this = AlignLeft then ''marginLeft'' else ''marginRight'') \<mapsto> ''64px''))"
  using assms
  by (cases "align this")
     (simp_all add: fold_sidebar_def folded_def truthy_b_def set_folded_def sibling_style_def
        renderer_setStyle_def update_sibling_def Let_def)

lemma sibling_style_cong:
  "nextElementSibling a = nextElementSibling b \<Longrightarrow>
   previousElementSibling a = previousElementSibling b \<Longrightarrow> sibling_style sib a = sibling_style sib b"
  by (simp add: sibling_style_def split: sibling.splits)

lemma open_sidebar_result:
  assumes "\<not> opened this" "\<not> truthy_b (isLockedOpen this)"
  shows "opened (open_sidebar this)" "isLockedOpen (open_sidebar this) = isLockedOpen this"
    "folded (open_sidebar this) = folded this" "align (open_sidebar this) = align this"
    "sibling_style sib (open_sidebar this) = sibling_style sib this"
  using assms by (simp_all add: open_sidebar_def sibling_style_def split: sibling.splits)

lemma close_sidebar_result:
  "\<not> truthy_b (isLockedOpen this) \<Longrightarrow> \<not> opened (close_sidebar this)"
  "folded (close_sidebar this) = folded this"
  "sibling_style sib (close_sidebar this) = sibling_style sib this"
  by (simp_all add: close_sidebar_def sibling_style_def split: sibling.splits)

lemma ngOnDestroy_opened_folded:
  assumes "opened this" "folded this = Some True"
    and "sibling_style (if align this = AlignLeft then NextSibling else PreviousSibling) this = Some st"
  shows "effects (fst (ngOnDestroy this)) =
           effects this @
           [RemoveStyle (if align this = AlignLeft then NextSibling else PreviousSibling)
              (if align this = AlignLeft then ''marginLeft'' else ''marginRight''),
            Unregister (name this)] @
           (if p_onMediaChangeSubscription this = None then [] else [Unsubscribe])"
    and "folded (fst (ngOnDestroy this)) = Some False"
  using assms
  by (cases "align this"; cases "p_onMediaChangeSubscription this";
      simp add: ngOnDestroy_def unfold_sidebar_def folded_def truthy_b_def set_folded_def
        sibling_style_def renderer_removeStyle_def update_sibling_def Let_def)+

lemmas eval_defs =
  ngOnInit_def setupLockedOpen_def setupAlignment_def onMediaChange_def bind_inputs_def
  FuseSidebarComponent_constructor_def truthy_s_def sidebar_defs perform_all_def Let_def
  navigationFolded_of_def bindE_def DEFAULT_CONFIG_def ngOnDestroy_def

lemma ngOnDestroy_closed:
  assumes "\<not> opened this"
  shows "effects (fst (ngOnDestroy this)) =
           effects this @ [Unregister (name this)] @
           (if p_onMediaChangeSubscription this = None then [] else [Unsubscribe])"
    and "folded (fst (ngOnDestroy this)) = folded this"
    and "nextElementSibling (fst (ngOnDestroy this)) = nextElementSibling this"
    and "previousElementSibling (fst (ngOnDestroy this)) = previousElementSibling this"
  using assms
  by (cases "p_onMediaChangeSubscription this";
      simp add: ngOnDestroy_def unfold_sidebar_closed folded_def Let_def)+

lemma setConfig_call_layout_object:
  assumes "\<exists>m l. config this = JObj m \<and> m ''layout'' = Some (JObj l)"
  shows "\<exists>m l. config (setConfig_call cfg this) = JObj m \<and> m ''layout'' = Some (JObj l)"
proof (cases "setConfig this cfg")
  case (Inl e)
  then show ?thesis using assms by (simp add: setConfig_call_def)
next
  case (Inr this')
  then show ?thesis
    by (simp add: setConfig_call_def setConfig_result(1)[OF Inr])
qed

lemma setConfig_calls_layout_object:
  "\<exists>m l. config this = JObj m \<and> m ''layout'' = Some (JObj l) \<Longrightarrow>
   \<exists>m l. config (setConfig_calls cfgs this) = JObj m \<and> m ''layout'' = Some (JObj l)"
  unfolding setConfig_calls_def
proof (induction cfgs arbitrary: this)
  case Nil
  then show ?case by simp
next
  case (Cons cfg cfgs)
  have "\<exists>m l. config (setConfig_call cfg this) = JObj m \<and> m ''layout'' = Some (JObj l)"
    by (rule setConfig_call_layout_object[OF Cons.prems])
  then have "\<exists>m l. config (fold setConfig_call cfgs (setConfig_call cfg this)) = JObj m \<and>
               m ''layout'' = Some (JObj l)"
    by (rule Cons.IH)
  then show ?case by simp
qed

lemma navigationFolded_of_default_service:
  assumes "FuseConfigService_constructor JNull mobile = Inr s0"
  shows "\<exists>nf. navigationFolded_of (setConfig_calls cfgs s0) = Inr nf"
proof -
  have "\<exists>m l. config s0 = JObj m \<and> m ''layout'' = Some (JObj l)"
    using assms
    by (auto simp: FuseConfigService_constructor_def bindE_def DEFAULT_CONFIG_def Let_def
          split: if_splits)
  then obtain m l where "config (setConfig_calls cfgs s0) = JObj m" "m ''layout'' = Some (JObj l)"
    using setConfig_calls_layout_object by blast
  then show ?thesis
    by (simp add: navigationFolded_of_def bindE_def)
qed

text \<open>
  Claim C3. When the media-change handler finds the breakpoint active and the recorded
  status is not active, it sets \<^verbatim>\<open>isLockedOpen\<close> and \<^verbatim>\<open>opened\<close> to true, calls
  \<^verbatim>\<open>fold()\<close> exactly when \<^verbatim>\<open>layout.navigationFolded\<close> of the configuration is true at
  that moment (so the sidebar ends folded then, and keeps its fold state otherwise), and
  hides the backdrop if there is one: the fade-out player is started on it and its
  completion removes the overlay. When the computed status equals the recorded one, the
  handler returns the component unchanged. The handler exists only on a sidebar whose
  \<^verbatim>\<open>lockedOpen\<close> input is set; the hypothesis says that the configuration read succeeds,
  as it does on a service constructed from the default configuration, after any
  \<open>setConfig\<close> calls (\<open>navigationFolded_of_default_service\<close>). The test is the
  truthiness of the value read; for the boolean the field holds, that it is true.
\<close>

theorem mediaChange_activation_locks_open:
  assumes "navigationFolded_of cfg = Inr nf"
  shows "(p_wasActive this \<noteq> Some True \<longrightarrow>
            (let this2 = this\<lparr>isLockedOpen := Some True, opened := True\<rparr>;
                 this' = fst (onMediaChange cfg True this)
             in onMediaChange cfg True this =
                  ((hideBackdrop (if truthy nf then fold_sidebar this2 else this2))
                     \<lparr>p_wasActive := Some True\<rparr>, None) \<and>
                isLockedOpen this' = Some True \<and> opened this' \<and>
                folded this' = (if truthy nf then Some True else folded this) \<and>
                p_backdrop this' = p_backdrop this \<and>
                (case p_backdrop this of
                   None \<Rightarrow> p_player this' = p_player this
                 | Some b \<Rightarrow> p_player this' = Some (AnimationPlayer 0 b True) \<and>
                     p_backdrop (hideBackdrop_onDone this') = None \<and>
                     parentChildren (hideBackdrop_onDone this') = remove1 b (parentChildren this)))) \<and>
         (p_wasActive this = Some isActive \<longrightarrow> onMediaChange cfg isActive this = (this, None))"
proof -
  let ?this2 = "this\<lparr>isLockedOpen := Some True, opened := True\<rparr>"
  let ?this3 = "if truthy nf then fold_sidebar ?this2 else ?this2"
  let ?r = "(hideBackdrop ?this3)\<lparr>p_wasActive := Some True\<rparr>"
  have same: "onMediaChange cfg isActive this = (this, None)" if "p_wasActive this = Some isActive"
    using that by (simp add: onMediaChange_def)
  have act: "onMediaChange cfg True this = (?r, None)" if "p_wasActive this \<noteq> Some True"
    using that assms by (simp add: onMediaChange_def Let_def)
  have f3: "isLockedOpen ?this3 = Some True" "opened ?this3"
    "folded ?this3 = (if truthy nf then Some True else folded this)"
    "p_backdrop ?this3 = p_backdrop this" "p_player ?this3 = p_player this"
    "parentChildren ?this3 = parentChildren this"
    by (simp_all add: fold_sidebar_opened)
  have r: "isLockedOpen ?r = Some True" "opened ?r"
    "folded ?r = (if truthy nf then Some True else folded this)"
    "p_backdrop ?r = p_backdrop this"
    using f3 by simp_all
  have p: "case p_backdrop this of
                   None \<Rightarrow> p_player ?r = p_player this
                 | Some b \<Rightarrow> p_player ?r = Some (AnimationPlayer 0 b True) \<and>
                     p_backdrop (hideBackdrop_onDone ?r) = None \<and>
                     parentChildren (hideBackdrop_onDone ?r) = remove1 b (parentChildren this)"
    using f3(4,5,6)
    by (cases "p_backdrop this") (simp_all add: hideBackdrop_player hideBackdrop_onDone_def)
  show ?thesis
    using same act r p by (simp add: Let_def)
qed

theorem mediaChange_activation_locks_open_witness:
  "(let cfg0 = \<lparr>config = JObj (ownProps DEFAULT_CONFIG), defaultConfig = DEFAULT_CONFIG,
                 onConfigChanged = JObj (ownProps DEFAULT_CONFIG)\<rparr>;
        cfg = setConfig_call (JObj [''layout'' \<mapsto> JObj [''navigationFolded'' \<mapsto> JBool True]]) cfg0;
        mounted = fst (ngOnInit cfg0 False
                   (bind_inputs (Some ''navbar'') None (Some ''gt-md'') None
                      (FuseSidebarComponent_constructor (Some Map.empty) None)));
        this = open_sidebar mounted;
        this' = fst (onMediaChange cfg True this)
    in navigationFolded_of cfg = Inr (JBool True) \<and>
       p_wasActive this = Some False \<and> p_backdrop this = Some 0 \<and>
       isLockedOpen this' = Some True \<and> opened this' \<and> folded this' = Some True \<and>
       p_player this' = Some (AnimationPlayer 0 0 True) \<and>
       p_backdrop (hideBackdrop_onDone this') = None \<and>
       onMediaChange cfg False this = (this, None) \<and>
       navigationFolded_of cfg0 = Inr (JBool False) \<and>
       folded (fst (onMediaChange cfg0 True this)) = None)"
proof -
  define dflt where "dflt = \<lparr>config = JObj (ownProps DEFAULT_CONFIG), defaultConfig = DEFAULT_CONFIG,
                 onConfigChanged = JObj (ownProps DEFAULT_CONFIG)\<rparr>"
  define cfg where
    "cfg = setConfig_call (JObj [''layout'' \<mapsto> JObj [''navigationFolded'' \<mapsto> JBool True]]) dflt"
  define sb where "sb = open_sidebar (fst (ngOnInit dflt False
                   (bind_inputs (Some ''navbar'') None (Some ''gt-md'') None
                      (FuseSidebarComponent_constructor (Some Map.empty) None))))"
  have nf: "navigationFolded_of cfg = Inr (JBool True)"
    unfolding cfg_def dflt_def
    by (simp add: navigationFolded_of_def setConfig_call_def setConfig_def bindE_def Let_def
          DEFAULT_CONFIG_def map_add_def)
  have nf0: "navigationFolded_of dflt = Inr (JBool False)"
    unfolding dflt_def
    by (simp add: navigationFolded_of_def bindE_def DEFAULT_CONFIG_def)
  have t: "p_wasActive sb = Some False" "p_backdrop sb = Some 0" "folded sb = None"
    unfolding sb_def dflt_def by (simp_all add: eval_defs)
  have a: "p_wasActive sb \<noteq> Some True"
    using t(1) by simp
  note on = mediaChange_activation_locks_open[OF nf, of sb False, THEN conjunct1, THEN mp, OF a, unfolded Let_def]
  note off = mediaChange_activation_locks_open[OF nf0, of sb False, THEN conjunct1, THEN mp, OF a, unfolded Let_def]
  note same = mediaChange_activation_locks_open[OF nf, of sb False, THEN conjunct2, THEN mp, OF t(1)]
  note r1 = on[THEN conjunct2]
  note r2 = r1[THEN conjunct2]
  note r3 = r2[THEN conjunct2]
  note r4 = r3[THEN conjunct2, THEN conjunct2]
  have 1: "isLockedOpen (fst (onMediaChange cfg True sb)) = Some True"
    by (rule r1[THEN conjunct1])
  have 2: "opened (fst (onMediaChange cfg True sb))"
    by (rule r2[THEN conjunct1])
  have 3: "folded (fst (onMediaChange cfg True sb)) = Some True"
    using r3[THEN conjunct1] by (simp only: truthy.simps if_True)
  have 4: "p_player (fst (onMediaChange cfg True sb)) = Some (AnimationPlayer 0 0 True) \<and>
           p_backdrop (hideBackdrop_onDone (fst (onMediaChange cfg True sb))) = None \<and>
           parentChildren (hideBackdrop_onDone (fst (onMediaChange cfg True sb))) =
             remove1 0 (parentChildren sb)"
    using r4 by (simp only: t(2) option.case)
  note 5 = 4[THEN conjunct1]
  note 6 = 4[THEN conjunct2, THEN conjunct1]
  have 7: "folded (fst (onMediaChange dflt True sb)) = None"
    using off[THEN conjunct2, THEN conjunct2, THEN conjunct2, THEN conjunct1]
    by (simp only: truthy.simps if_False t(3))
  show ?thesis
    unfolding Let_def dflt_def[symmetric] cfg_def[symmetric] sb_def[symmetric]
    by (intro conjI nf nf0 t(1) t(2) 1 2 3 5 6 7 same)
qed

text \<open>
  Claim C5. While \<^verbatim>\<open>isLockedOpen\<close> is true, \<^verbatim>\<open>open()\<close> and \<^verbatim>\<open>close()\<close> return the
  component unchanged in every field; \<^verbatim>\<open>open()\<close> does so too when the sidebar is already
  opened, and \<^verbatim>\<open>close()\<close> when it is already closed.
\<close>

theorem open_close_noop_when_locked:
  "(isLockedOpen this = Some True \<longrightarrow> open_sidebar this = this \<and> close_sidebar this = this) \<and>
   (opened this \<longrightarrow> open_sidebar this = this) \<and>
   (\<not> opened this \<longrightarrow> close_sidebar this = this)"
  by (simp add: open_sidebar_def close_sidebar_def truthy_b_def)

theorem open_close_noop_when_locked_witness:
  "(let cfg = \<lparr>config = JObj (ownProps DEFAULT_CONFIG), defaultConfig = DEFAULT_CONFIG,
                 onConfigChanged = JObj (ownProps DEFAULT_CONFIG)\<rparr>;
        created = bind_inputs (Some ''navbar'') None (Some ''gt-md'') None
                    (FuseSidebarComponent_constructor (Some Map.empty) None);
        locked = fst (ngOnInit cfg True created);
        closed = fst (ngOnInit cfg False created)
    in isLockedOpen locked = Some True \<and> opened locked \<and>
       open_sidebar locked = locked \<and> close_sidebar locked = locked \<and>
       \<not> opened closed \<and> close_sidebar closed = closed)"
proof -
  let ?cfg = "\<lparr>config = JObj (ownProps DEFAULT_CONFIG), defaultConfig = DEFAULT_CONFIG,
                 onConfigChanged = JObj (ownProps DEFAULT_CONFIG)\<rparr>"
  let ?created = "bind_inputs (Some ''navbar'') None (Some ''gt-md'') None
                    (FuseSidebarComponent_constructor (Some Map.empty) None)"
  let ?locked = "fst (ngOnInit ?cfg True ?created)"
  let ?closed = "fst (ngOnInit ?cfg False ?created)"
  have l: "isLockedOpen ?locked = Some True" "opened ?locked"
    by (simp_all add: eval_defs)
  have c: "\<not> opened ?closed"
    by (simp add: eval_defs)
  show ?thesis
    using open_close_noop_when_locked[of ?locked] open_close_noop_when_locked[of ?closed] l c by (simp add: Let_def)
qed

text \<open>
  Claim C6. While the sidebar is closed, a write to the \<^verbatim>\<open>folded\<close> property changes
  nothing: neither the flag nor the style of a neighbouring element, and no renderer call
  is made. So \<^verbatim>\<open>fold()\<close> on a closed, unfolded sidebar leaves it unfolded.
\<close>

theorem fold_noop_when_closed:
  assumes "\<not> opened this"
  shows "set_folded v this = this \<and> fold_sidebar this = this \<and>
         (folded this \<noteq> Some True \<longrightarrow> folded (fold_sidebar this) \<noteq> Some True) \<and>
         nextElementSibling (set_folded v this) = nextElementSibling this \<and>
         previousElementSibling (set_folded v this) = previousElementSibling this \<and>
         effects (set_folded v this) = effects this"
  using assms by (simp add: set_folded_closed fold_sidebar_closed)

theorem fold_noop_when_closed_witness:
  "(let cfg = \<lparr>config = JObj (ownProps DEFAULT_CONFIG), defaultConfig = DEFAULT_CONFIG,
                 onConfigChanged = JObj (ownProps DEFAULT_CONFIG)\<rparr>;
        closed = fst (ngOnInit cfg False
                   (bind_inputs (Some ''navbar'') None (Some ''gt-md'') None
                      (FuseSidebarComponent_constructor (Some Map.empty) None)))
    in \<not> opened closed \<and> folded closed \<noteq> Some True \<and>
       set_folded True closed = closed \<and> fold_sidebar closed = closed \<and>
       folded (fold_sidebar closed) \<noteq> Some True \<and>
       nextElementSibling (set_folded True closed) = Some Map.empty)"
proof -
  let ?closed = "fst (ngOnInit \<lparr>config = JObj (ownProps DEFAULT_CONFIG), defaultConfig = DEFAULT_CONFIG,
                 onConfigChanged = JObj (ownProps DEFAULT_CONFIG)\<rparr> False
                   (bind_inputs (Some ''navbar'') None (Some ''gt-md'') None
                      (FuseSidebarComponent_constructor (Some Map.empty) None)))"
  have c: "\<not> opened ?closed" "folded ?closed \<noteq> Some True"
    "nextElementSibling ?closed = Some Map.empty"
    by (simp_all add: eval_defs)
  show ?thesis
    using fold_noop_when_closed[OF c(1), of True] c by (simp add: Let_def)
qed

text \<open>
  Claim C9. On a closed, unlocked sidebar the calls \<^verbatim>\<open>open(); fold(); close()\<close> end with
  \<^verbatim>\<open>opened = false\<close> and \<^verbatim>\<open>folded = true\<close>, although the sidebar was opened when it was
  folded: \<^verbatim>\<open>close()\<close> does not unfold. In the state reached every write to \<^verbatim>\<open>folded\<close>,
  and \<^verbatim>\<open>unfold()\<close> with it, changes nothing, so the margin that \<^verbatim>\<open>fold()\<close> set on the
  neighbouring element stays while the sidebar is closed.
\<close>

theorem close_leaves_folded_set:
  assumes "\<not> opened this" and "\<not> truthy_b (isLockedOpen this)"
  shows "let s = close_sidebar (fold_sidebar (open_sidebar this));
             sib = (if align this = AlignLeft then NextSibling else PreviousSibling);
             styleRule = (if align this = AlignLeft then ''marginLeft'' else ''marginRight'')
         in opened (fold_sidebar (open_sidebar this)) \<and>
            \<not> opened s \<and> folded s = Some True \<and>
            set_folded v s = s \<and> unfold_sidebar s = s \<and>
            (folded this \<noteq> Some True \<and> sibling_style sib this = Some st \<longrightarrow>
               sibling_style sib s = Some (st(styleRule \<mapsto> ''64px'')) \<and>
               sibling_style sib (unfold_sidebar s) = Some (st(styleRule \<mapsto> ''64px'')))"
proof -
  let ?o = "open_sidebar this"
  let ?t = "fold_sidebar ?o"
  let ?s = "close_sidebar ?t"
  let ?sib = "if align this = AlignLeft then NextSibling else PreviousSibling"
  let ?rule = "if align this = AlignLeft then ''marginLeft'' else ''marginRight''"
  note o = open_sidebar_result[OF assms]
  have t: "opened ?t" using o(1) by simp
  have l: "\<not> truthy_b (isLockedOpen ?t)"
    using o(2) assms(2) by simp
  have c: "\<not> opened ?s"
    by (rule close_sidebar_result(1)[OF l])
  have fs: "folded ?s = Some True"
    using fold_sidebar_opened[OF o(1)] by (simp add: close_sidebar_result(2))
  have m: "sibling_style ?sib ?s = Some (st(?rule \<mapsto> ''64px''))"
    if "folded this \<noteq> Some True" "sibling_style ?sib this = Some st"
  proof -
    have "sibling_style (if align ?o = AlignLeft then NextSibling else PreviousSibling) ?t =
          Some (st((if align ?o = AlignLeft then ''marginLeft'' else ''marginRight'') \<mapsto> ''64px''))"
      by (rule fold_sidebar_margin[OF o(1)]) (simp_all add: o that)
    then show ?thesis
      by (simp add: close_sidebar_result(3) o(4))
  qed
  show ?thesis
    using t c fs set_folded_closed[OF c] unfold_sidebar_closed[OF c] m
    by (simp add: Let_def)
qed

theorem close_leaves_folded_set_witness:
  "(let cfg = \<lparr>config = JObj (ownProps DEFAULT_CONFIG), defaultConfig = DEFAULT_CONFIG,
                 onConfigChanged = JObj (ownProps DEFAULT_CONFIG)\<rparr>;
        mounted = fst (ngOnInit cfg False
                   (bind_inputs (Some ''navbar'') None None None
                      (FuseSidebarComponent_constructor (Some Map.empty) None)));
        s = perform_all [Open, Fold, Close] mounted
    in \<not> opened mounted \<and> \<not> truthy_b (isLockedOpen mounted) \<and>
       opened (perform_all [Open, Fold] mounted) \<and>
       \<not> opened s \<and> folded s = Some True \<and>
       perform Unfold s = s \<and> perform (SetFolded False) s = s \<and>
       nextElementSibling s = Some [''marginLeft'' \<mapsto> ''64px''] \<and>
       nextElementSibling (perform Unfold s) = Some [''marginLeft'' \<mapsto> ''64px''])"
proof -
  let ?m = "fst (ngOnInit \<lparr>config = JObj (ownProps DEFAULT_CONFIG), defaultConfig = DEFAULT_CONFIG,
                 onConfigChanged = JObj (ownProps DEFAULT_CONFIG)\<rparr> False
                   (bind_inputs (Some ''navbar'') None None None
                      (FuseSidebarComponent_constructor (Some Map.empty) None)))"
  have c: "\<not> opened ?m" "\<not> truthy_b (isLockedOpen ?m)" "folded ?m \<noteq> Some True"
    "align ?m = AlignLeft" "sibling_style NextSibling ?m = Some Map.empty"
    by (simp_all add: eval_defs)
  have n: "sibling_style NextSibling x = nextElementSibling x" for x
    by (simp add: sibling_style_def)
  show ?thesis
    using close_leaves_folded_set[OF c(1,2), of False Map.empty] c
    by (simp add: Let_def perform_all_def n)
qed

text \<open>
  Claim C10. \<^verbatim>\<open>ngOnDestroy\<close> calls \<^verbatim>\<open>unsubscribe\<close> on the subscription field whatever
  its value, and only \<^verbatim>\<open>_setupLockedOpen\<close> on a sidebar with a \<^verbatim>\<open>lockedOpen\<close> input
  assigns that field. For a sidebar mounted without \<^verbatim>\<open>lockedOpen\<close>, after any events,
  teardown throws a TypeError; teardown without error implies that \<^verbatim>\<open>lockedOpen\<close> was
  set; and with \<^verbatim>\<open>lockedOpen\<close> set and an initialisation that did not throw, teardown does
  not throw.
\<close>

theorem ngOnDestroy_throws_without_lockedOpen:
  assumes "ngOnInit cfg isActive
             (bind_inputs nm al lo fo (FuseSidebarComponent_constructor nxt prv)) = (this, err)"
  shows "(\<not> truthy_s lo \<longrightarrow> snd (ngOnDestroy (perform_all events this)) = Some TypeError) \<and>
         (snd (ngOnDestroy (perform_all events this)) = None \<longrightarrow> truthy_s lo) \<and>
         (truthy_s lo \<and> err = None \<longrightarrow> snd (ngOnDestroy (perform_all events this)) = None)"
proof -
  note i = ngOnInit_subscription[OF assms created_fields(1), unfolded created_fields(2)]
  have a: "\<not> truthy_s lo \<longrightarrow> snd (ngOnDestroy (perform_all events this)) = Some TypeError"
    using i(1) by (simp add: ngOnDestroy_throws_iff perform_all_subscription)
  have c: "truthy_s lo \<and> err = None \<longrightarrow> snd (ngOnDestroy (perform_all events this)) = None"
    using i(2) by (simp add: ngOnDestroy_throws_iff perform_all_subscription)
  from a have b: "snd (ngOnDestroy (perform_all events this)) = None \<longrightarrow> truthy_s lo"
    by auto
  show ?thesis using a b c by blast
qed

theorem ngOnDestroy_throws_without_lockedOpen_witness:
  "(let cfg = \<lparr>config = JObj (ownProps DEFAULT_CONFIG), defaultConfig = DEFAULT_CONFIG,
                 onConfigChanged = JObj (ownProps DEFAULT_CONFIG)\<rparr>;
        plain = ngOnInit cfg False
                  (bind_inputs (Some ''navbar'') None None None
                     (FuseSidebarComponent_constructor (Some Map.empty) None));
        locking = ngOnInit cfg False
                  (bind_inputs (Some ''navbar'') None (Some ''gt-md'') None
                     (FuseSidebarComponent_constructor (Some Map.empty) None))
    in \<not> truthy_s None \<and> snd plain = None \<and>
       snd (ngOnDestroy (perform_all [Open, Close] (fst plain))) = Some TypeError \<and>
       truthy_s (Some ''gt-md'') \<and> snd locking = None \<and>
       snd (ngOnDestroy (perform_all [Open, Close] (fst locking))) = None)"
proof -
  let ?cfg = "\<lparr>config = JObj (ownProps DEFAULT_CONFIG), defaultConfig = DEFAULT_CONFIG,
                 onConfigChanged = JObj (ownProps DEFAULT_CONFIG)\<rparr>"
  let ?plain = "ngOnInit ?cfg False
                  (bind_inputs (Some ''navbar'') None None None
                     (FuseSidebarComponent_constructor (Some Map.empty) None))"
  let ?locking = "ngOnInit ?cfg False
                  (bind_inputs (Some ''navbar'') None (Some ''gt-md'') None
                     (FuseSidebarComponent_constructor (Some Map.empty) None))"
  have e: "snd ?plain = None" "snd ?locking = None"
    by (simp_all add: eval_defs)
  have p: "?plain = (fst ?plain, snd ?plain)" "?locking = (fst ?locking, snd ?locking)"
    by simp_all
  show ?thesis
    using ngOnDestroy_throws_without_lockedOpen[OF p(1), of "[Open, Close]"] ngOnDestroy_throws_without_lockedOpen[OF p(2), of "[Open, Close]"] e
    by (simp add: Let_def truthy_s_def)
qed

text \<open>
  Claim C4 says that teardown of a folded sidebar unfolds it, removing the margin of the
  neighbouring element once, before it unregisters. That holds while the sidebar is
  opened (\<open>ngOnDestroy_opened_folded\<close>). On a sidebar that was opened, folded and then
  closed, teardown reverts nothing: \<^verbatim>\<open>unfold()\<close> writes \<^verbatim>\<open>folded\<close> through the setter,
  which returns at once on a closed sidebar. The effects of the teardown are the
  unregistration and the unsubscription only, and the neighbour keeps its margin.
\<close>

theorem ngOnDestroy_closed_folded_keeps_margin:
  "(let cfg = \<lparr>config = JObj (ownProps DEFAULT_CONFIG), defaultConfig = DEFAULT_CONFIG,
                 onConfigChanged = JObj (ownProps DEFAULT_CONFIG)\<rparr>;
        mounted = fst (ngOnInit cfg False
                   (bind_inputs (Some ''navbar'') None (Some ''gt-md'') None
                      (FuseSidebarComponent_constructor (Some Map.empty) None)));
        this = perform_all [Open, Fold, Close] mounted;
        destroyed = ngOnDestroy this
    in folded this = Some True \<and> \<not> opened this \<and>
       nextElementSibling this = Some [''marginLeft'' \<mapsto> ''64px''] \<and>
       effects (fst destroyed) = effects this @ [Unregister (Some ''navbar''), Unsubscribe] \<and>
       folded (fst destroyed) = Some True \<and>
       nextElementSibling (fst destroyed) = Some [''marginLeft'' \<mapsto> ''64px''] \<and>
       snd destroyed = None)"
  by (simp add: eval_defs)

end
